theory Spec2Isabelle
  imports Complex_Main "HOL-Library.Sublist"
begin

section \<open>Numbers, rounding and fixed-point formatting\<close>

text \<open>
  The cost tracker computes with Python floats. They are idealised here as exact real
  numbers: \<open>+\<close>, \<open>*\<close>, \<open>/\<close> and the comparisons are those of \<open>real\<close>, Python's
  \<open>round(x, n)\<close> rounds the scaled value to the nearest integer with ties going to the
  even neighbour, and the format specification \<open>:.nf\<close> prints the value rounded in the
  same way. Python integers are \<open>int\<close>.
\<close>

definition round_half_even :: "real \<Rightarrow> int" where
  "round_half_even x =
     (let f = \<lfloor>x\<rfloor>; d = x - of_int f
      in if d < 1 / 2 then f
         else if 1 / 2 < d then f + 1
         else if even f then f else f + 1)"

definition py_round :: "real \<Rightarrow> nat \<Rightarrow> real" where
  "py_round x n = of_int (round_half_even (x * 10 ^ n)) / 10 ^ n"

fun digits :: "nat \<Rightarrow> string" where
  "digits n = (if n < 10 then [''0123456789'' ! n]
               else digits (n div 10) @ [''0123456789'' ! (n mod 10)])"

declare digits.simps [simp del]

definition zfill :: "nat \<Rightarrow> string \<Rightarrow> string" where
  "zfill n s = replicate (n - length s) CHR ''0'' @ s"

definition fmt_fixed :: "nat \<Rightarrow> real \<Rightarrow> string" where
  "fmt_fixed p x =
     (let n = nat (round_half_even (\<bar>x\<bar> * 10 ^ p))
      in (if x < 0 then ''-'' else '''')
         @ digits (n div 10 ^ p)
         @ (if p = 0 then '''' else ''.'' @ zfill p (digits (n mod 10 ^ p))))"

section \<open>The pricing table\<close>

text \<open>A price dict \<open>{"input": .., "output": ..}\<close>, in USD per million tokens.\<close>

record pricing =
  input_rate :: real
  output_rate :: real

text \<open>\<open>PRICING\<close>: a dict keyed by (source, model prefix), in declaration order.\<close>

definition PRICING :: "((string \<times> string) \<times> pricing) list" where
  "PRICING =
     [((''google'', ''gemini-2.5-flash''), \<lparr>input_rate = 0.15, output_rate = 0.60\<rparr>),
      ((''google'', ''gemini-2.5-pro''), \<lparr>input_rate = 1.25, output_rate = 10.00\<rparr>),
      ((''google'', ''gemini-2.0-flash''), \<lparr>input_rate = 0.10, output_rate = 0.40\<rparr>),
      ((''ollama'', ''''), \<lparr>input_rate = 0.0, output_rate = 0.0\<rparr>),
      ((''openai'', ''gpt-4o''), \<lparr>input_rate = 2.50, output_rate = 10.00\<rparr>),
      ((''openai'', ''gpt-4o-mini''), \<lparr>input_rate = 0.15, output_rate = 0.60\<rparr>)]"

definition CHARS_PER_TOKEN :: real where
  "CHARS_PER_TOKEN = 4"

definition DEFAULT_DAILY_CAP :: real where
  "DEFAULT_DAILY_CAP = 2.00"

definition DEFAULT_TOTAL_CAP :: real where
  "DEFAULT_TOTAL_CAP = 10.00"

text \<open>\<open>str.startswith\<close>: \<open>startswith m p\<close> holds when \<open>p\<close> is a prefix of \<open>m\<close>.\<close>

fun startswith :: "string \<Rightarrow> string \<Rightarrow> bool" where
  "startswith m [] = True"
| "startswith [] (p # ps) = False"
| "startswith (c # cs) (p # ps) = (c = p \<and> startswith cs ps)"

text \<open>
  The loop \<open>for (s, prefix), price in PRICING.items()\<close> of \<open>_lookup_pricing\<close>: it returns
  at the first entry that matches; \<open>None\<close> is the loop running to its end.
\<close>

fun prefix_scan :: "((string \<times> string) \<times> pricing) list \<Rightarrow> string \<Rightarrow> string \<Rightarrow> pricing option" where
  "prefix_scan [] source model = None"
| "prefix_scan (((s, pre), price) # rest) source model =
     (if s = source \<and> startswith model pre then Some price
      else prefix_scan rest source model)"

definition lookup_pricing :: "string \<Rightarrow> string \<Rightarrow> pricing" where
  "lookup_pricing source model =
     (if source = ''ollama'' then \<lparr>input_rate = 0.0, output_rate = 0.0\<rparr>
      else (case map_of PRICING (source, model) of
              Some price \<Rightarrow> price
            | None \<Rightarrow>
                (case prefix_scan PRICING source model of
                   Some price \<Rightarrow> price
                 | None \<Rightarrow> \<lparr>input_rate = 5.00, output_rate = 15.00\<rparr>)))"

definition estimate_cost :: "string \<Rightarrow> string \<Rightarrow> int \<Rightarrow> int \<Rightarrow> real" where
  "estimate_cost source model prompt_chars response_chars =
     (let pricing = lookup_pricing source model;
          input_tokens = of_int prompt_chars / CHARS_PER_TOKEN;
          output_tokens = of_int response_chars / CHARS_PER_TOKEN
      in input_tokens * input_rate pricing / 1000000
         + output_tokens * output_rate pricing / 1000000)"

section \<open>The cost tracker\<close>

text \<open>One entry of the ledger: the dict built by \<open>record\<close>.\<close>

record cost_record =
  ts :: real
  source :: string
  model :: string
  prompt_chars :: int
  response_chars :: int
  duration :: real
  cost :: real

datatype exn =
    IOError string
  | JSONDecodeError string
  | UnicodeDecodeError string
  | CostLimitExceeded string
  | IndexError string
  | RuntimeError string

text \<open>
  What is stored under a path, seen through \<open>open(path, "r")\<close> followed by
  \<open>json.load\<close>:
  \<^item> \<open>Unreadable m\<close>: the path exists but cannot be opened or read (a directory, no
    permission); \<open>open\<close> raises an \<open>OSError\<close> (\<open>IOError\<close> is its alias) with text \<open>m\<close>;
  \<^item> \<open>Undecodable m\<close>: the bytes are not valid in the text encoding (UTF-8), as in a
    file holding the single byte \<open>0xFF\<close>; reading the text stream raises
    \<open>UnicodeDecodeError\<close>, a \<open>ValueError\<close> that is neither a \<open>JSONDecodeError\<close> nor an
    \<open>OSError\<close>;
  \<^item> \<open>Malformed m\<close>: the text is not JSON; \<open>json.load\<close> raises \<open>JSONDecodeError\<close>;
  \<^item> \<open>Ledger rs\<close>: the text is the JSON array that \<open>json.dump\<close> writes for the record
    list \<open>rs\<close>, and \<open>json.load\<close> returns \<open>rs\<close>.
  A file holding other valid JSON (an object, a number, an array of anything else) is
  left out: \<open>_load\<close> would keep the parsed value as \<open>self.records\<close> without complaint,
  and the record list of the model is typed.

  Writing succeeds: the path is taken to lie in a directory that exists or can be
  created and written, so that \<open>os.makedirs\<close>, \<open>open(tmp, "w")\<close>, \<open>json.dump\<close> and
  \<open>os.replace\<close> do not raise. Locks are not modelled: every operation runs alone,
  from its first step to its last.
\<close>

datatype stored =
    Unreadable string
  | Undecodable string
  | Malformed string
  | Ledger "cost_record list"

datatype log_entry = Warning string | Info string

record world =
  files :: "string \<rightharpoonup> stored"
  log_out :: "log_entry list"

record CostTracker =
  path :: string
  daily_cap :: real
  total_cap :: real
  logger :: bool
  records :: "cost_record list"

fun str_exn :: "exn \<Rightarrow> string" where
  "str_exn (IOError m) = m"
| "str_exn (JSONDecodeError m) = m"
| "str_exn (UnicodeDecodeError m) = m"
| "str_exn (CostLimitExceeded m) = m"
| "str_exn (IndexError m) = m"
| "str_exn (RuntimeError m) = m"

text \<open>The body of the \<open>try\<close> in \<open>_load\<close>: open the file and parse it.\<close>

fun json_load :: "stored \<Rightarrow> exn + cost_record list" where
  "json_load (Unreadable m) = Inl (IOError m)"
| "json_load (Undecodable m) = Inl (UnicodeDecodeError m)"
| "json_load (Malformed m) = Inl (JSONDecodeError m)"
| "json_load (Ledger rs) = Inr rs"

text \<open>The \<open>except (json.JSONDecodeError, IOError)\<close> clause: which exceptions it catches.\<close>

fun caught_by_load :: "exn \<Rightarrow> bool" where
  "caught_by_load (JSONDecodeError m) = True"
| "caught_by_load (IOError m) = True"
| "caught_by_load e = False"

definition warning :: "CostTracker \<Rightarrow> string \<Rightarrow> world \<Rightarrow> world" where
  "warning t msg w = (if logger t then w\<lparr>log_out := log_out w @ [Warning msg]\<rparr> else w)"

definition info :: "CostTracker \<Rightarrow> string \<Rightarrow> world \<Rightarrow> world" where
  "info t msg w = (if logger t then w\<lparr>log_out := log_out w @ [Info msg]\<rparr> else w)"

definition load :: "CostTracker \<Rightarrow> world \<Rightarrow> exn + (CostTracker \<times> world)" where
  "load t w =
     (case files w (path t) of
        Some f \<Rightarrow>
          (case json_load f of
             Inr rs \<Rightarrow> Inr (t\<lparr>records := rs\<rparr>, w)
           | Inl e \<Rightarrow>
               if caught_by_load e
               then Inr (t\<lparr>records := []\<rparr>,
                         warning t (''Cost ledger corrupted or unreadable ('' @ str_exn e
                                    @ ''), starting fresh'') w)
               else Inl e)
      | None \<Rightarrow> Inr (t\<lparr>records := []\<rparr>, w))"

definition os_replace :: "string \<Rightarrow> string \<Rightarrow> (string \<rightharpoonup> stored) \<Rightarrow> (string \<rightharpoonup> stored)" where
  "os_replace src dst fs = (fs(dst := fs src))(src := None)"

definition save :: "CostTracker \<Rightarrow> world \<Rightarrow> world" where
  "save t w =
     (let tmp = path t @ ''.tmp'';
          fs = (files w)(tmp \<mapsto> Ledger (records t))
      in w\<lparr>files := os_replace tmp (path t) fs\<rparr>)"

text \<open>\<open>CostTracker.__init__\<close>; a cap of \<open>None\<close> selects the default.\<close>

definition init :: "string \<Rightarrow> real option \<Rightarrow> real option \<Rightarrow> bool \<Rightarrow> world
                    \<Rightarrow> exn + (CostTracker \<times> world)" where
  "init p dcap tcap lg w =
     load \<lparr>path = p,
           daily_cap = (case dcap of Some c \<Rightarrow> c | None \<Rightarrow> DEFAULT_DAILY_CAP),
           total_cap = (case tcap of Some c \<Rightarrow> c | None \<Rightarrow> DEFAULT_TOTAL_CAP),
           logger = lg,
           records = []\<rparr> w"

text \<open>The clock \<open>time.time()\<close> is the parameter \<open>now\<close> of every operation that reads it.\<close>

definition spend_last_24h :: "CostTracker \<Rightarrow> real \<Rightarrow> real" where
  "spend_last_24h t now =
     (let cutoff = now - 86400
      in sum_list [cost r. r \<leftarrow> records t, cutoff \<le> ts r])"

definition spend_total :: "CostTracker \<Rightarrow> real" where
  "spend_total t = sum_list [cost r. r \<leftarrow> records t]"

definition check_budget :: "CostTracker \<Rightarrow> real \<Rightarrow> real \<Rightarrow> exn + unit" where
  "check_budget t now estimated_cost =
     (let daily = spend_last_24h t now;
          total = spend_total t
      in if daily + estimated_cost > daily_cap t
         then Inl (CostLimitExceeded
                (''24h spend $'' @ fmt_fixed 4 daily @ '' + $'' @ fmt_fixed 4 estimated_cost
                 @ '' would exceed daily cap $'' @ fmt_fixed 2 (daily_cap t)))
         else if total + estimated_cost > total_cap t
         then Inl (CostLimitExceeded
                (''Total spend $'' @ fmt_fixed 4 total @ '' + $'' @ fmt_fixed 4 estimated_cost
                 @ '' would exceed lifetime cap $'' @ fmt_fixed 2 (total_cap t)))
         else Inr ())"

text \<open>
  \<open>CostTracker.record\<close>: returns the cost, the tracker with the entry appended and the
  world after \<open>_save\<close> and the optional log line. The clock is read once; the source
  reads it again for the 24-hour figure of the log line.
\<close>

definition record_call :: "CostTracker \<Rightarrow> world \<Rightarrow> real \<Rightarrow> string \<Rightarrow> string \<Rightarrow> int \<Rightarrow> int \<Rightarrow> real
                           \<Rightarrow> real \<times> CostTracker \<times> world" where
  "record_call t w now src mdl pchars rchars dur =
     (let c = estimate_cost src mdl pchars rchars;
          entry = \<lparr>ts = now, source = src, model = mdl, prompt_chars = pchars,
                   response_chars = rchars, duration = py_round dur 2, cost = py_round c 6\<rparr>;
          t' = t\<lparr>records := records t @ [entry]\<rparr>;
          w' = save t' w;
          w'' = info t' (''Cost | call=$'' @ fmt_fixed 6 c
                         @ '' | 24h=$'' @ fmt_fixed 4 (spend_last_24h t' now)
                         @ ''/'' @ fmt_fixed 2 (daily_cap t')
                         @ '' | total=$'' @ fmt_fixed 4 (spend_total t')
                         @ ''/'' @ fmt_fixed 2 (total_cap t')) w'
      in (c, t', w''))"

record summary =
  daily_spend :: real
  s_daily_cap :: real
  total_spend :: real
  s_total_cap :: real
  call_count :: nat

definition summary :: "CostTracker \<Rightarrow> real \<Rightarrow> summary" where
  "summary t now =
     \<lparr>daily_spend = py_round (spend_last_24h t now) 4,
      s_daily_cap = daily_cap t,
      total_spend = py_round (spend_total t) 4,
      s_total_cap = total_cap t,
      call_count = length (records t)\<rparr>"

section \<open>The game controller\<close>

text \<open>
  Modelled from the spec: the class \<open>Player\<close> is not under src. A player or advisor has
  a name, a kind (human or AI), the rooms the constructor of the game gives it, and an
  active flag.
\<close>

datatype player_kind = Human | AI

record Player =
  name :: string
  kind :: player_kind
  gameroom :: string
  chatroom :: string
  active :: bool

text \<open>
  The calls the controller makes on its collaborators, in the order it makes them. A poll
  of a player is tagged with the move and with the player's position in \<open>self.players\<close>,
  an adjudication with the move. Of the log lines, the warning of the budget handler and
  the closing line with \<open>moves_completed\<close> and \<open>self.moves\<close> are kept.
\<close>

datatype event =
    Header string nat
  | Narration string
  | Send string string
  | GetMessage nat nat
  | Respond nat nat
  | Adjudicate nat
  | LogWarning string
  | GameComplete nat int

text \<open>
  Modelled from the spec: \<open>Player.respond\<close>, \<open>Player.interface_get_message\<close> and
  \<open>Control.adjudicate\<close> are not under src. They are awaited and return a text or
  raise; what each call does is a parameter of the run: \<open>respond\<close> and
  \<open>interface_get_message\<close> in move \<open>m\<close> for the player at position \<open>i\<close>, and
  \<open>adjudicate\<close> in move \<open>m\<close>. Every call of a run has its own move and position, so
  this covers any behaviour of the language model, the ledger and the human players.
\<close>

record env =
  respond :: "nat \<Rightarrow> nat \<Rightarrow> exn + string"
  interface_get_message :: "nat \<Rightarrow> nat \<Rightarrow> exn + string"
  adjudicate :: "nat \<Rightarrow> exn + string"

record UserDefinedGame =
  title :: string
  scenario :: string
  moves :: int
  players :: "Player list"
  advisors :: "Player list"
  ai_only :: bool
  history :: "string list"
  trace :: "event list"

definition emit :: "event \<Rightarrow> UserDefinedGame \<Rightarrow> UserDefinedGame" where
  "emit ev g = g\<lparr>trace := trace g @ [ev]\<rparr>"

text \<open>
  Modelled from the spec: \<open>Control.header\<close>, \<open>Control.interface_send_message\<close> and
  \<open>Control.record_narration\<close> are not under src. The first two publish a text and
  leave the timeline alone; \<open>record_narration\<close> appends its text as one new entry to the
  shared timeline. None of them is a priced call.
\<close>

definition header :: "string \<Rightarrow> nat \<Rightarrow> UserDefinedGame \<Rightarrow> UserDefinedGame" where
  "header txt h g = emit (Header txt h) g"

definition interface_send_message :: "string \<Rightarrow> string \<Rightarrow> UserDefinedGame \<Rightarrow> UserDefinedGame" where
  "interface_send_message room content g = emit (Send room content) g"

definition record_narration :: "string \<Rightarrow> UserDefinedGame \<Rightarrow> UserDefinedGame" where
  "record_narration txt g = (emit (Narration txt) g)\<lparr>history := history g @ [txt]\<rparr>"

text \<open>
  Modelled from the spec: the class \<open>History\<close> is not under src; the timeline is the
  list of its narrations. \<open>self.history[-1].textonly()\<close> is the last entry, and an
  \<open>IndexError\<close> on an empty timeline.
\<close>

definition last_text :: "string list \<Rightarrow> exn + string" where
  "last_text h = (if h = [] then Inl (IndexError ''list index out of range'') else Inr (last h))"

text \<open>The loop \<open>for player in self.players\<close> of one move; \<open>i\<close> is the position reached.\<close>

fun poll_players :: "env \<Rightarrow> nat \<Rightarrow> nat \<Rightarrow> Player list \<Rightarrow> (string \<times> string) list
                     \<Rightarrow> UserDefinedGame \<Rightarrow> (exn + (string \<times> string) list) \<times> UserDefinedGame" where
  "poll_players e move i [] responses g = (Inr responses, g)"
| "poll_players e move i (player # rest) responses g =
     (let g1 = header (''### '' @ name player) 2 g
      in if kind player = Human
         then (case last_text (history g1) of
                 Inl err \<Rightarrow> (Inl err, g1)
               | Inr narration \<Rightarrow>
                   (let g2 = interface_send_message (gameroom player)
                               (narration @ ''\<newline>\<newline>**How do you respond?**'') g1;
                        g3 = emit (GetMessage move i) g2
                    in case interface_get_message e move i of
                         Inl err \<Rightarrow> (Inl err, g3)
                       | Inr response \<Rightarrow>
                           poll_players e move (Suc i) rest
                             (responses @ [(name player, response)]) g3))
         else (let g2 = emit (Respond move i) g1
               in case respond e move i of
                    Inl err \<Rightarrow> (Inl err, g2)
                  | Inr response \<Rightarrow>
                      poll_players e move (Suc i) rest
                        (responses @ [(name player, response)]) g2))"

text \<open>The body of \<open>for move in range(self.moves)\<close>.\<close>

definition take_move :: "env \<Rightarrow> nat \<Rightarrow> UserDefinedGame \<Rightarrow> (exn + unit) \<times> UserDefinedGame" where
  "take_move e move g =
     (let g1 = header (''Move '' @ digits (move + 1)) 1 g
      in case poll_players e move 0 (players g1) [] g1 of
           (Inl err, g2) \<Rightarrow> (Inl err, g2)
         | (Inr responses, g2) \<Rightarrow>
             (let g3 = header ''### Result'' 2 g2;
                  g4 = emit (Adjudicate move) g3
              in case adjudicate e move of
                   Inl err \<Rightarrow> (Inl err, g4)
                 | Inr outcome \<Rightarrow> (Inr (), record_narration outcome g4)))"

text \<open>
  The loop over the moves: \<open>k\<close> moves are left, \<open>move\<close> is the next one and \<open>completed\<close>
  is \<open>moves_completed\<close>. It stops at the first exception and hands it on.
\<close>

fun run_moves :: "env \<Rightarrow> nat \<Rightarrow> nat \<Rightarrow> nat \<Rightarrow> UserDefinedGame
                  \<Rightarrow> exn option \<times> nat \<times> UserDefinedGame" where
  "run_moves e 0 move completed g = (None, completed, g)"
| "run_moves e (Suc k) move completed g =
     (case take_move e move g of
        (Inl err, g') \<Rightarrow> (Some err, completed, g')
      | (Inr u, g') \<Rightarrow> run_moves e k (Suc move) (Suc completed) g')"

text \<open>The greeting at the start, and the two loops over the human players at the end.\<close>

fun greet :: "Player list \<Rightarrow> UserDefinedGame \<Rightarrow> UserDefinedGame" where
  "greet [] g = g"
| "greet (player # rest) g =
     greet rest (if kind player = Human
                 then interface_send_message (gameroom player)
                        (''You are '' @ name player @ ''.'') g
                 else g)"

fun notify_stopped :: "string \<Rightarrow> Player list \<Rightarrow> UserDefinedGame \<Rightarrow> UserDefinedGame" where
  "notify_stopped msg [] g = g"
| "notify_stopped msg (player # rest) g =
     notify_stopped msg rest
       (if kind player = Human
        then interface_send_message (gameroom player)
               (''**Game stopped: spending limit reached.**\<newline>\<newline>'' @ msg) g
        else g)"

fun game_over :: "Player list \<Rightarrow> UserDefinedGame \<Rightarrow> (exn + unit) \<times> UserDefinedGame" where
  "game_over [] g = (Inr (), g)"
| "game_over (player # rest) g =
     (if kind player = Human
      then (case last_text (history g) of
              Inl err \<Rightarrow> (Inl err, g)
            | Inr narration \<Rightarrow>
                game_over rest
                  (interface_send_message (gameroom player)
                     (narration @ ''\<newline>\<newline>**Game Over**'') g))
      else game_over rest g)"

text \<open>The part of \<open>game\<close> after the \<open>try\<close> statement.\<close>

definition conclusion :: "nat \<Rightarrow> UserDefinedGame \<Rightarrow> (exn + unit) \<times> UserDefinedGame" where
  "conclusion moves_completed g =
     (case game_over (players g) g of
        (Inl err, g1) \<Rightarrow> (Inl err, g1)
      | (Inr u, g1) \<Rightarrow>
          (let g2 = emit (GameComplete moves_completed (moves g1)) g1
           in (Inr (), g2\<lparr>advisors := map (\<lambda>advisor. advisor\<lparr>active := False\<rparr>) (advisors g2)\<rparr>)))"

text \<open>
  \<open>UserDefinedGame.game\<close>. Only \<open>CostLimitExceeded\<close> is handled; any other exception
  leaves the coroutine.
\<close>

definition game :: "env \<Rightarrow> UserDefinedGame \<Rightarrow> (exn + unit) \<times> UserDefinedGame" where
  "game e g =
     (let g1 = g\<lparr>history := []\<rparr>;
          g2 = header (title g1) 0 g1;
          g3 = record_narration (scenario g2) g2;
          g4 = header (scenario g3) 2 g3;
          g5 = greet (players g4) g4
      in case run_moves e (nat (moves g5)) 0 0 g5 of
           (None, moves_completed, g6) \<Rightarrow> conclusion moves_completed g6
         | (Some (CostLimitExceeded msg), moves_completed, g6) \<Rightarrow>
             conclusion moves_completed
               (notify_stopped msg (players g6)
                  (emit (LogWarning (''Budget exceeded, stopping game: '' @ msg)) g6))
         | (Some err, moves_completed, g6) \<Rightarrow> (Inl err, g6))"

subsection \<open>Observing a run\<close>

text \<open>
  What a trace shows of the round loop, in order: the moves started (the level-1
  headers, with their text), the polls of players (move and position) and the
  adjudications (move).
\<close>

datatype step = Started string | Polled nat nat | Adjudicated nat

fun step_of :: "event \<Rightarrow> step list" where
  "step_of (Header txt h) = (if h = 1 then [Started txt] else [])"
| "step_of (GetMessage m i) = [Polled m i]"
| "step_of (Respond m i) = [Polled m i]"
| "step_of (Adjudicate m) = [Adjudicated m]"
| "step_of ev = []"

definition steps_of :: "event list \<Rightarrow> step list" where
  "steps_of tr = concat (map step_of tr)"

definition humans :: "Player list \<Rightarrow> Player list" where
  "humans ps = filter (\<lambda>p. kind p = Human) ps"

text \<open>
  The steps of a whole move \<open>m\<close> of \<open>n\<close> players, and the steps of a game that goes
  through \<open>k\<close> whole moves and then, in move \<open>k\<close>, through the polls of the players at
  the positions below \<open>j\<close>.
\<close>

definition whole_move :: "nat \<Rightarrow> nat \<Rightarrow> step list" where
  "whole_move n m =
     Started (''Move '' @ digits (m + 1)) # map (Polled m) [0..<n] @ [Adjudicated m]"

definition schedule :: "nat \<Rightarrow> nat \<Rightarrow> nat \<Rightarrow> step list" where
  "schedule n k j =
     concat (map (whole_move n) [0..<k])
     @ Started (''Move '' @ digits (k + 1)) # map (Polled k) [0..<j]"

text \<open>
  The poll of the player \<open>p\<close> at position \<open>i\<close> in move \<open>m\<close> returns; the whole move \<open>m\<close>
  returns, its adjudication included.
\<close>

definition poll_ok :: "env \<Rightarrow> Player \<Rightarrow> nat \<Rightarrow> nat \<Rightarrow> bool" where
  "poll_ok e p m i =
     (if kind p = Human then \<not> isl (interface_get_message e m i) else \<not> isl (respond e m i))"

definition move_ok :: "env \<Rightarrow> Player list \<Rightarrow> nat \<Rightarrow> bool" where
  "move_ok e ps m = ((\<forall>i<length ps. poll_ok e (ps ! i) m i) \<and> \<not> isl (adjudicate e m))"

text \<open>
  Move \<open>k\<close> raises the budget condition with text \<open>msg\<close> at \<open>j\<close>: the polls before
  position \<open>j\<close> return, and either \<open>j\<close> is the position of an AI player whose \<open>respond\<close>
  raises it, or \<open>j\<close> is the number of players, all of them have answered, and the
  adjudication raises it. \<open>failing_call\<close> is that call.
\<close>

definition stops_at :: "env \<Rightarrow> Player list \<Rightarrow> nat \<Rightarrow> nat \<Rightarrow> string \<Rightarrow> bool" where
  "stops_at e ps k j msg =
     ((\<forall>i<j. i < length ps \<longrightarrow> poll_ok e (ps ! i) k i)
      \<and> (if j < length ps
          then kind (ps ! j) = AI \<and> respond e k j = Inl (CostLimitExceeded msg)
          else j = length ps \<and> adjudicate e k = Inl (CostLimitExceeded msg)))"

definition failing_call :: "Player list \<Rightarrow> nat \<Rightarrow> nat \<Rightarrow> event" where
  "failing_call ps k j = (if j < length ps then Respond k j else Adjudicate k)"

definition budget_stop :: "env \<Rightarrow> Player list \<Rightarrow> nat \<Rightarrow> nat \<Rightarrow> string \<Rightarrow> bool" where
  "budget_stop e ps k j msg = ((\<forall>m<k. move_ok e ps m) \<and> stops_at e ps k j msg)"

subsection \<open>Configuration and start\<close>

text \<open>
  The part of the configuration that decides who plays and what is started: the
  players with their \<open>kind\<close> entry, the advisors, and the \<open>ai_only\<close> key, which a
  file may leave out.
\<close>

record file_config =
  fc_title :: string
  fc_scenario :: string
  fc_moves :: int
  fc_players :: "(string \<times> string) list"
  fc_advisors :: "string list"
  fc_ai_only :: "bool option"

record Configuration =
  cfg_title :: string
  cfg_scenario :: string
  cfg_moves :: int
  cfg_players :: "(string \<times> string) list"
  cfg_advisors :: "string list"
  cfg_ai_only :: bool

text \<open>
  \<open>Configuration.__init__\<close> and \<open>Configuration.from_dict\<close>:
  \<open>ai_only = file_config.get('ai_only', False)\<close>.
\<close>

definition Configuration_init :: "file_config \<Rightarrow> Configuration" where
  "Configuration_init fc =
     \<lparr>cfg_title = fc_title fc, cfg_scenario = fc_scenario fc, cfg_moves = fc_moves fc,
      cfg_players = fc_players fc, cfg_advisors = fc_advisors fc,
      cfg_ai_only = (case fc_ai_only fc of Some b \<Rightarrow> b | None \<Rightarrow> False)\<rparr>"

text \<open>
  \<open>merge_config\<close>: every player gets the kind the user chose for it (\<open>'ai'\<close> when none
  was chosen), the advisors are cut down to the active ones, and \<open>ai_only\<close> is set to
  whether no player is human. The entries of the infrastructure layer and the
  override of the number of moves play no part in what is started and are left out.
\<close>

definition merge_config :: "file_config \<Rightarrow> (string \<rightharpoonup> string) \<Rightarrow> string list \<Rightarrow> file_config" where
  "merge_config template roles active_advisors =
     (let ps = map (\<lambda>(player_name, k).
                      (player_name, case roles player_name of Some r \<Rightarrow> r | None \<Rightarrow> ''ai''))
                 (fc_players template);
          has_human = list_ex (\<lambda>(player_name, k). k = ''human'') ps
      in template\<lparr>fc_players := ps,
                  fc_advisors := filter (\<lambda>a. a \<in> set active_advisors) (fc_advisors template),
                  fc_ai_only := Some (\<not> has_human)\<rparr>)"

text \<open>
  The players and advisors that \<open>UserDefinedGame.__init__\<close> builds for the game \<open>ioid\<close>;
  a player whose kind is neither \<open>'human'\<close> nor \<open>'ai'\<close> is skipped.
\<close>

fun make_players :: "string \<Rightarrow> (string \<times> string) list \<Rightarrow> Player list" where
  "make_players ioid [] = []"
| "make_players ioid ((n, k) # rest) =
     (if k = ''human''
      then \<lparr>name = n, kind = Human, gameroom = ''game'' @ ioid, chatroom = ''chat'' @ ioid,
            active = True\<rparr> # make_players ioid rest
      else if k = ''ai''
      then \<lparr>name = n, kind = AI, gameroom = [], chatroom = [], active = True\<rparr>
             # make_players ioid rest
      else make_players ioid rest)"

definition UserDefinedGame_init :: "Configuration \<Rightarrow> string \<Rightarrow> UserDefinedGame" where
  "UserDefinedGame_init config ioid =
     \<lparr>title = cfg_title config, scenario = cfg_scenario config, moves = cfg_moves config,
      players = make_players ioid (cfg_players config),
      advisors = map (\<lambda>n. \<lparr>name = n, kind = AI, gameroom = [], chatroom = ''chat'' @ ioid,
                            active = True\<rparr>) (cfg_advisors config),
      ai_only = cfg_ai_only config, history = [], trace = []\<rparr>"

text \<open>
  \<open>UserDefinedGame.__call__\<close>: what it starts. Either it awaits \<open>self.game()\<close> alone, or
  it creates, in one \<open>asyncio.TaskGroup\<close>, a task for the chat session of every advisor
  and then a task for \<open>self.game()\<close>.
\<close>

datatype task = ChatSession string string | GameTask

datatype launch = AwaitGame | TaskGroup "task list"

definition call :: "UserDefinedGame \<Rightarrow> launch" where
  "call g =
     (if ai_only g then AwaitGame
      else TaskGroup (map (\<lambda>advisor. ChatSession (name advisor) (chatroom advisor)) (advisors g)
                      @ [GameTask]))"

subsection \<open>Concrete games\<close>

text \<open>
  Four moves, a human and two AI players, one advisor; in the third move the call of
  the second AI player meets the lifetime cap.
\<close>

definition four_round_game :: UserDefinedGame where
  "four_round_game =
     \<lparr>title = ''Harbour'', scenario = ''A storm closes the port.'', moves = 4,
      players = [\<lparr>name = ''Ada'', kind = Human, gameroom = ''game7'', chatroom = ''chat7'',
                   active = True\<rparr>,
                 \<lparr>name = ''Red'', kind = AI, gameroom = [], chatroom = [], active = True\<rparr>,
                 \<lparr>name = ''Blue'', kind = AI, gameroom = [], chatroom = [], active = True\<rparr>],
      advisors = [\<lparr>name = ''Sage'', kind = AI, gameroom = [], chatroom = ''chat7'',
                    active = True\<rparr>],
      ai_only = False, history = [], trace = []\<rparr>"

definition round3_over_cap :: env where
  "round3_over_cap =
     \<lparr>respond = (\<lambda>m i. if m = 2 \<and> i = 2
                         then Inl (CostLimitExceeded ''Total spend over lifetime cap'')
                         else Inr ''I act.''),
      interface_get_message = (\<lambda>m i. Inr ''I wait.''),
      adjudicate = (\<lambda>m. Inr ''The day passes.'')\<rparr>"

text \<open>
  A game file with two AI players, one advisor and no \<open>ai_only\<close> key, and the same
  template merged with the choice of a human for the first player.
\<close>

definition all_ai_file :: file_config where
  "all_ai_file =
     \<lparr>fc_title = ''Harbour'', fc_scenario = ''A storm closes the port.'', fc_moves = 4,
      fc_players = [(''Red'', ''ai''), (''Blue'', ''ai'')],
      fc_advisors = [''Sage''], fc_ai_only = None\<rparr>"

definition all_ai_game :: UserDefinedGame where
  "all_ai_game = UserDefinedGame_init (Configuration_init all_ai_file) ''7''"

definition merged_game :: UserDefinedGame where
  "merged_game =
     UserDefinedGame_init
       (Configuration_init (merge_config all_ai_file [''Red'' \<mapsto> ''human''] [''Sage'']))
       ''7''"

section \<open>The specification's wording of pricing and spend\<close>

text \<open>
  The rate pair as the specification words it: the local provider is free; otherwise the
  exact (provider, model) entry; otherwise the first declared entry of the provider whose
  prefix is a prefix of the model; otherwise the fallback.
\<close>

definition spec_rates :: "string \<Rightarrow> string \<Rightarrow> real \<times> real" where
  "spec_rates provider mdl =
     (if provider = ''ollama'' then (0, 0)
      else (case find (\<lambda>((s, m), price). s = provider \<and> m = mdl) PRICING of
              Some (k, price) \<Rightarrow> (input_rate price, output_rate price)
            | None \<Rightarrow>
                (case find (\<lambda>((s, pre), price). s = provider \<and> prefix pre mdl) PRICING of
                   Some (k, price) \<Rightarrow> (input_rate price, output_rate price)
                 | None \<Rightarrow> (5, 15))))"

definition spec_estimate :: "string \<Rightarrow> string \<Rightarrow> int \<Rightarrow> int \<Rightarrow> real" where
  "spec_estimate provider mdl promptChars responseChars =
     (of_int promptChars / 4) * fst (spec_rates provider mdl) / 1000000
     + (of_int responseChars / 4) * snd (spec_rates provider mdl) / 1000000"

text \<open>
  Spend as the specification words it: the sum of the costs of the records whose
  timestamp is at least \<open>now - 86400\<close>, and the sum of all costs.
\<close>

definition dailySpend :: "cost_record list \<Rightarrow> real \<Rightarrow> real" where
  "dailySpend rs now = (\<Sum>r\<leftarrow>filter (\<lambda>r. ts r \<ge> now - 86400) rs. cost r)"

definition totalSpend :: "cost_record list \<Rightarrow> real" where
  "totalSpend rs = (\<Sum>r\<leftarrow>rs. cost r)"

text \<open>
  A run of \<open>record\<close> calls on one tracker, each with the clock reading at its time:
  (now, source, model, prompt_chars, response_chars, duration).
\<close>

type_synonym call = "real \<times> string \<times> string \<times> int \<times> int \<times> real"

fun record_all :: "CostTracker \<Rightarrow> world \<Rightarrow> call list \<Rightarrow> CostTracker \<times> world" where
  "record_all t w [] = (t, w)"
| "record_all t w ((now, src, mdl, pchars, rchars, dur) # calls) =
     (case record_call t w now src mdl pchars rchars dur of
        (c, t', w') \<Rightarrow> record_all t' w' calls)"

text \<open>
  The ledger in memory agrees with the backing file: loading the file now would give the
  records the tracker holds.
\<close>

definition synced :: "CostTracker \<Rightarrow> world \<Rightarrow> bool" where
  "synced t w =
     (case files w (path t) of
        None \<Rightarrow> records t = []
      | Some f \<Rightarrow> (case json_load f of
                     Inr rs \<Rightarrow> records t = rs
                   | Inl e \<Rightarrow> caught_by_load e \<and> records t = []))"

subsection \<open>Concrete ledgers\<close>


definition fresh_tracker :: CostTracker where
  "fresh_tracker =
     \<lparr>path = ''/data/snowglobe/cost_ledger.json'', daily_cap = 2, total_cap = 10,
      logger = True, records = []\<rparr>"

text \<open>A ledger whose spend is already above both caps.\<close>

definition overspent_tracker :: CostTracker where
  "overspent_tracker =
     \<lparr>path = ''/data/snowglobe/cost_ledger.json'', daily_cap = 1, total_cap = 1,
      logger = False,
      records = [\<lparr>ts = 100, source = ''openai'', model = ''gpt-4o'',
                  prompt_chars = 2400000, response_chars = 0, duration = 0.25,
                  cost = 1.5\<rparr>]\<rparr>"

definition two_calls :: "call list" where
  "two_calls = [(100, ''openai'', ''gpt-4o'', 2400000, 0, 0.254),
                (150, ''google'', ''gemini-2.5-pro-exp'', 4000, 400, 1.5)]"

definition empty_world :: world where
  "empty_world = \<lparr>files = Map.empty, log_out = []\<rparr>"

text \<open>A data directory whose ledger file holds the single byte \<open>0xFF\<close>.\<close>

definition garbled_world :: world where
  "garbled_world =
     \<lparr>files = [''/data/snowglobe/cost_ledger.json'' \<mapsto>
                Undecodable ''utf-8 codec cannot decode byte 0xff in position 0''],
      log_out = []\<rparr>"

section \<open>Properties of the pricing lookup\<close>

lemma startswith_prefix: "startswith m p = prefix p m"
  by (induction m p rule: startswith.induct) auto

lemma prefix_scan_find:
  "prefix_scan xs s m = map_option snd (find (\<lambda>((s', pre), price). s' = s \<and> prefix pre m) xs)"
  by (induction xs s m rule: prefix_scan.induct) (auto simp: startswith_prefix)

lemma map_of_find:
  "map_of xs (s, m) = map_option snd (find (\<lambda>((s', m'), price). s' = s \<and> m' = m) xs)"
  by (induction xs) auto

lemma lookup_pricing_spec:
  "(input_rate (lookup_pricing s m), output_rate (lookup_pricing s m)) = spec_rates s m"
  by (auto simp: lookup_pricing_def spec_rates_def prefix_scan_find map_of_find
           split: option.splits)

text \<open>
  C2. \<open>estimate_cost\<close> is a function of its four arguments alone, equal to
  \<open>(promptChars / 4) * inputRate / 1e6 + (responseChars / 4) * outputRate / 1e6\<close> with the
  rate pair resolved in the specification's order of precedence (\<open>spec_rates\<close>); for the
  local provider \<open>ollama\<close> it is 0 for every model and every pair of character counts.
\<close>

theorem estimate_cost_formula:
  "estimate_cost provider mdl p r = spec_estimate provider mdl p r
   \<and> estimate_cost ''ollama'' mdl p r = 0"
proof -
  have "fst (spec_rates provider mdl) = input_rate (lookup_pricing provider mdl)"
       "snd (spec_rates provider mdl) = output_rate (lookup_pricing provider mdl)"
    using lookup_pricing_spec [of provider mdl] by (metis fst_conv, metis snd_conv)
  then have "estimate_cost provider mdl p r = spec_estimate provider mdl p r"
    by (simp add: estimate_cost_def spec_estimate_def CHARS_PER_TOKEN_def Let_def)
  moreover have "estimate_cost ''ollama'' mdl p r = 0"
    by (simp add: estimate_cost_def lookup_pricing_def)
  ultimately show ?thesis by simp
qed

lemma prefix_scan_None:
  "(\<forall>((s, pre), price) \<in> set xs. \<not> (s = src \<and> prefix pre m)) \<Longrightarrow> prefix_scan xs src m = None"
  by (induction xs src m rule: prefix_scan.induct) (auto simp: startswith_prefix)

text \<open>
  C7. A (provider, model) pair that is not the local provider's and matches no declared
  entry, neither exactly nor by provider and prefix, gets the fallback rates 5.00 and
  15.00, and each of the two is strictly higher than the corresponding rate of every
  declared entry.
\<close>

theorem fallback_pessimistic:
  assumes "src \<noteq> ''ollama''"
    and "(src, m) \<notin> fst ` set PRICING"
    and "\<forall>((s, pre), price) \<in> set PRICING. \<not> (s = src \<and> prefix pre m)"
  shows "lookup_pricing src m = \<lparr>input_rate = 5, output_rate = 15\<rparr>
     \<and> (\<forall>(k, price) \<in> set PRICING.
            input_rate price < input_rate (lookup_pricing src m)
          \<and> output_rate price < output_rate (lookup_pricing src m))"
proof -
  have "map_of PRICING (src, m) = None"
    using assms(2) by (simp add: map_of_eq_None_iff)
  moreover have "prefix_scan PRICING src m = None"
    using assms(3) by (rule prefix_scan_None)
  ultimately have fb: "lookup_pricing src m = \<lparr>input_rate = 5, output_rate = 15\<rparr>"
    using assms(1) by (simp add: lookup_pricing_def)
  have "\<forall>(k, price) \<in> set PRICING. input_rate price < 5 \<and> output_rate price < 15"
    by (simp add: PRICING_def)
  with fb show ?thesis by simp
qed

theorem fallback_pessimistic_witness:
  "lookup_pricing ''google'' ''gemini-1.5-pro'' = \<lparr>input_rate = 5, output_rate = 15\<rparr>
   \<and> input_rate (snd (PRICING ! 4)) < input_rate (lookup_pricing ''google'' ''gemini-1.5-pro'')"
  using fallback_pessimistic [of "''google''" "''gemini-1.5-pro''"]
  by (simp add: PRICING_def)

section \<open>Properties of the budget check\<close>

lemma sum_comprehension:
  "sum_list (concat (map (\<lambda>r. if P r then [f r] else []) xs)) = sum_list (map f (filter P xs))"
  by (induction xs) auto

lemma spend_last_24h_spec: "spend_last_24h t now = dailySpend (records t) now"
  by (simp add: spend_last_24h_def dailySpend_def sum_comprehension)

lemma spend_total_spec: "spend_total t = totalSpend (records t)"
  by (simp add: spend_total_def totalSpend_def)



lemma check_budget_cases:
  "check_budget t now x =
     (if dailySpend (records t) now + x > daily_cap t
      then Inl (CostLimitExceeded
             (''24h spend $'' @ fmt_fixed 4 (dailySpend (records t) now) @ '' + $''
              @ fmt_fixed 4 x @ '' would exceed daily cap $'' @ fmt_fixed 2 (daily_cap t)))
      else if totalSpend (records t) + x > total_cap t
      then Inl (CostLimitExceeded
             (''Total spend $'' @ fmt_fixed 4 (totalSpend (records t)) @ '' + $''
              @ fmt_fixed 4 x @ '' would exceed lifetime cap $'' @ fmt_fixed 2 (total_cap t)))
      else Inr ())"
  by (simp add: check_budget_def Let_def spend_last_24h_spec spend_total_spec)



section \<open>Properties of the ledger\<close>







lemma tmp_neq: "p @ ''.tmp'' \<noteq> p"
  by simp

lemma record_call_result:
  "record_call t w now src mdl pc rc dur = (c, t', w') \<Longrightarrow>
     c = estimate_cost src mdl pc rc
   \<and> t' = t\<lparr>records := records t @ [\<lparr>ts = now, source = src, model = mdl, prompt_chars = pc,
                   response_chars = rc, duration = py_round dur 2,
                   cost = py_round (estimate_cost src mdl pc rc) 6\<rparr>]\<rparr>
   \<and> files w' (path t) = Some (Ledger (records t'))"
  by (auto simp add: record_call_def Let_def save_def info_def os_replace_def)


lemma estimate_gpt4o: "estimate_cost ''openai'' ''gpt-4o'' 2400000 0 = 3 / 2"
  by (simp add: estimate_cost_def lookup_pricing_def PRICING_def CHARS_PER_TOKEN_def)

lemma py_round_examples:
  "py_round (3 / 2) 6 = 3 / 2" "py_round (127 / 500) 2 = 1 / 4"
  by (simp_all add: py_round_def round_half_even_def)




section \<open>Properties of loading and saving\<close>

lemma load_result:
  assumes "load t w = Inr (t', w')"
  shows "path t' = path t \<and> daily_cap t' = daily_cap t \<and> total_cap t' = total_cap t
     \<and> logger t' = logger t \<and> files w' = files w \<and> synced t' w'"
  using assms
  by (auto simp add: load_def synced_def warning_def
      split: option.splits sum.splits if_splits)

lemma load_synced:
  assumes "synced t w"
  shows "\<exists>w'. load (t\<lparr>logger := lg, records := rs\<rparr>) w = Inr (t\<lparr>logger := lg\<rparr>, w')"
  using assms
  by (auto simp add: load_def synced_def split: option.splits sum.splits)

lemma record_call_synced:
  assumes "record_call t w now src mdl pc rc dur = (c, t', w')"
  shows "path t' = path t \<and> daily_cap t' = daily_cap t \<and> total_cap t' = total_cap t
     \<and> logger t' = logger t \<and> length (records t') = Suc (length (records t)) \<and> synced t' w'"
  using record_call_result [OF assms] by (simp add: synced_def)

lemma record_all_synced:
  assumes "record_all t w calls = (t', w')" and "synced t w"
  shows "path t' = path t \<and> daily_cap t' = daily_cap t \<and> total_cap t' = total_cap t
     \<and> logger t' = logger t \<and> length (records t') = length (records t) + length calls
     \<and> synced t' w'"
  using assms
proof (induction calls arbitrary: t w)
  case Nil
  then show ?case by simp
next
  case (Cons a calls)
  obtain now src mdl pc rc dur where a: "a = (now, src, mdl, pc, rc, dur)"
    by (cases a) auto
  obtain c t1 w1 where r: "record_call t w now src mdl pc rc dur = (c, t1, w1)"
    by (cases "record_call t w now src mdl pc rc dur") auto
  from Cons.prems a r have rest: "record_all t1 w1 calls = (t', w')" by simp
  note s1 = record_call_synced [OF r]
  from Cons.IH [OF rest] s1 show ?case by simp
qed

lemma init_fresh:
  "init ''/data/snowglobe/cost_ledger.json'' None None True empty_world
     = Inr (fresh_tracker, empty_world)"
  by (simp add: init_def load_def empty_world_def fresh_tracker_def
        DEFAULT_DAILY_CAP_def DEFAULT_TOTAL_CAP_def)

text \<open>
  C6. After a tracker has been constructed from a path and any run of \<open>record\<close> calls
  has been made through it, constructing a tracker from the same path with the same
  caps succeeds and holds the same records, so that its \<open>summary\<close> at any clock
  reading equals the first tracker's: same daily and total spend, same caps, same
  call count. The call count is the number of records loaded at first plus the
  number of calls, which is the number of calls when the file did not exist.
\<close>

theorem reload_round_trip:
  assumes "init p dcap tcap lg w0 = Inr (t0, w1)"
    and "record_all t0 w1 calls = (t, w)"
  shows "\<exists>t' w'. init p dcap tcap lg' w = Inr (t', w')
           \<and> records t' = records t
           \<and> summary t' now = summary t now
           \<and> call_count (summary t' now) = length (records t0) + length calls
           \<and> (files w0 p = None \<longrightarrow> call_count (summary t' now) = length calls)"
proof -
  let ?t = "\<lparr>path = p,
           daily_cap = (case dcap of Some c \<Rightarrow> c | None \<Rightarrow> DEFAULT_DAILY_CAP),
           total_cap = (case tcap of Some c \<Rightarrow> c | None \<Rightarrow> DEFAULT_TOTAL_CAP),
           logger = lg, records = []\<rparr>"
  from assms(1) have l0: "load ?t w0 = Inr (t0, w1)"
    by (simp add: init_def)
  note i0 = load_result [OF l0]
  note i1 = record_all_synced [OF assms(2)]
  from i0 i1 have same: "t = ?t\<lparr>records := records t\<rparr>"
    by simp
  from i0 i1 have "synced t w" by simp
  from load_synced [OF this, where lg = lg' and rs = "[]"] obtain w' where
    "load (t\<lparr>logger := lg', records := []\<rparr>) w = Inr (t\<lparr>logger := lg'\<rparr>, w')"
    by blast
  moreover have "t\<lparr>logger := lg', records := []\<rparr> = ?t\<lparr>logger := lg'\<rparr>"
    by (subst same) simp
  ultimately have re: "init p dcap tcap lg' w = Inr (t\<lparr>logger := lg'\<rparr>, w')"
    by (simp add: init_def)
  have empty: "files w0 p = None \<longrightarrow> records t0 = []"
    using l0 by (auto simp add: load_def)
  have len: "length (records t) = length (records t0) + length calls"
    using i0 i1 by simp
  have "summary (t\<lparr>logger := lg'\<rparr>) now = summary t now"
    by (simp add: summary_def spend_last_24h_def spend_total_def)
  with re len empty show ?thesis
    by (intro exI [of _ "t\<lparr>logger := lg'\<rparr>"] exI [of _ w']) (simp add: summary_def)
qed

theorem reload_round_trip_witness:
  "init ''/data/snowglobe/cost_ledger.json'' None None True empty_world
     = Inr (fresh_tracker, empty_world)
   \<and> (case init ''/data/snowglobe/cost_ledger.json'' None None False
              (snd (record_all fresh_tracker empty_world two_calls)) of
        Inl e \<Rightarrow> False
      | Inr (t', w') \<Rightarrow>
          summary t' 200 = summary (fst (record_all fresh_tracker empty_world two_calls)) 200
          \<and> call_count (summary t' 200) = 2)"
proof -
  have r: "record_all fresh_tracker empty_world two_calls
            = (fst (record_all fresh_tracker empty_world two_calls),
               snd (record_all fresh_tracker empty_world two_calls))"
    by simp
  have none: "files empty_world ''/data/snowglobe/cost_ledger.json'' = None"
    by (simp add: empty_world_def)
  have len: "length two_calls = 2"
    by (simp add: two_calls_def)
  from reload_round_trip [OF init_fresh r, of False 200] none len
  show ?thesis
    by (auto simp add: init_fresh)
qed

text \<open>
  C10. \<open>record\<close> has no cap check: in every ledger state it returns the cost, holds
  one record more, and has written the whole list to the backing file; the caps are
  unchanged. The caps only show in \<open>check_budget\<close>: once the spend of the window
  or the total spend is above its cap, every later check of a non-negative amount
  raises.
\<close>

theorem record_ignores_caps:
  assumes "record_call t w now src mdl pc rc dur = (c, t', w')"
  shows "c = estimate_cost src mdl pc rc
     \<and> length (records t') = Suc (length (records t))
     \<and> butlast (records t') = records t
     \<and> files w' (path t') = Some (Ledger (records t'))
     \<and> path t' = path t \<and> daily_cap t' = daily_cap t \<and> total_cap t' = total_cap t
     \<and> (\<forall>now' x. 0 \<le> x
            \<and> (dailySpend (records t') now' > daily_cap t'
                \<or> totalSpend (records t') > total_cap t')
          \<longrightarrow> (\<exists>m. check_budget t' now' x = Inl (CostLimitExceeded m)))"
proof -
  note r = record_call_result [OF assms]
  have "\<forall>now' x. 0 \<le> x
            \<and> (dailySpend (records t') now' > daily_cap t'
                \<or> totalSpend (records t') > total_cap t')
          \<longrightarrow> (\<exists>m. check_budget t' now' x = Inl (CostLimitExceeded m))"
    by (auto simp add: check_budget_cases)
  with r show ?thesis by simp
qed

theorem record_ignores_caps_witness:
  "isl (check_budget overspent_tracker 200 0)
   \<and> fst (record_call overspent_tracker empty_world 200 ''openai'' ''gpt-4o'' 2400000 0 1) = 3 / 2
   \<and> length (records (fst (snd
        (record_call overspent_tracker empty_world 200 ''openai'' ''gpt-4o'' 2400000 0 1)))) = 2
   \<and> isl (check_budget (fst (snd
        (record_call overspent_tracker empty_world 200 ''openai'' ''gpt-4o'' 2400000 0 1))) 300 0)"
proof -
  obtain c t' w' where
    r: "record_call overspent_tracker empty_world 200 ''openai'' ''gpt-4o'' 2400000 0 1
          = (c, t', w')"
    using prod_cases3 by blast
  note facts = record_ignores_caps [OF r]
  have before: "isl (check_budget overspent_tracker 200 0)"
    by (simp add: check_budget_cases overspent_tracker_def dailySpend_def)
  have "totalSpend (records overspent_tracker) = 3 / 2"
    by (simp add: overspent_tracker_def totalSpend_def)
  moreover have "records t' = butlast (records t') @ [last (records t')]"
    using facts by (metis append_butlast_last_id length_0_conv nat.simps(3))
  ultimately have "totalSpend (records t') = 3 / 2 + cost (last (records t'))"
    using facts by (metis (no_types) totalSpend_def map_append sum_list_append
        list.simps(8,9) sum_list.Cons sum_list.Nil add_0_right)
  moreover have "cost (last (records t')) = 3 / 2"
    using record_call_result [OF r] by (simp add: estimate_gpt4o py_round_examples)
  ultimately have "totalSpend (records t') > total_cap t'"
    using facts by (simp add: overspent_tracker_def)
  with facts have "\<exists>m. check_budget t' 300 0 = Inl (CostLimitExceeded m)"
    by (metis order_refl)
  with before facts show ?thesis
    unfolding r by (auto simp add: estimate_gpt4o overspent_tracker_def)
qed

lemma load_recovers:
  "files w (path t) = None \<Longrightarrow> load t w = Inr (t\<lparr>records := []\<rparr>, w)"
  "files w (path t) = Some (Malformed m) \<Longrightarrow>
     load t w = Inr (t\<lparr>records := []\<rparr>,
        warning t (''Cost ledger corrupted or unreadable ('' @ m @ ''), starting fresh'') w)"
  "files w (path t) = Some (Unreadable m) \<Longrightarrow>
     load t w = Inr (t\<lparr>records := []\<rparr>,
        warning t (''Cost ledger corrupted or unreadable ('' @ m @ ''), starting fresh'') w)"
  "files w (path t) = Some (Ledger rs) \<Longrightarrow> load t w = Inr (t\<lparr>records := rs\<rparr>, w)"
  "files w (path t) = Some (Undecodable m) \<Longrightarrow> load t w = Inl (UnicodeDecodeError m)"
  by (simp_all add: load_def)


text \<open>
  C4. Loading recovers from a missing file, an unreadable one and one that is not
  JSON (\<open>load_recovers\<close>), but not from a file whose bytes are not valid UTF-8: the
  \<open>UnicodeDecodeError\<close> of the read is not among the exceptions that \<open>_load\<close> catches,
  and the construction of the tracker raises it.
\<close>

theorem load_undecodable_raises:
  "init ''/data/snowglobe/cost_ledger.json'' None None True garbled_world
     = Inl (UnicodeDecodeError ''utf-8 codec cannot decode byte 0xff in position 0'')"
  by (simp add: init_def load_def garbled_world_def)


section \<open>Properties of the round loop\<close>

lemma steps_of_simps [simp]:
  "steps_of [] = []" "steps_of (tr @ tr') = steps_of tr @ steps_of tr'"
  "steps_of (ev # tr) = step_of ev @ steps_of tr"
  by (simp_all add: steps_of_def)

lemma upt_head: "[i..<i + Suc n] = i # [Suc i..<Suc i + n]"
  by (simp add: upt_conv_Cons del: upt_Suc)

lemma poll_players_step:
  assumes "poll_ok e p m i" and "history g \<noteq> []"
  shows "\<exists>r tr. poll_players e m i (p # ps) rs g
                  = poll_players e m (Suc i) ps (rs @ [(name p, r)]) (g\<lparr>trace := trace g @ tr\<rparr>)
           \<and> steps_of tr = [Polled m i]"
proof (cases "kind p")
  case Human
  with assms(1) obtain r where r: "interface_get_message e m i = Inr r"
    by (cases "interface_get_message e m i") (auto simp add: poll_ok_def)
  let ?tr = "[Header (''### '' @ name p) 2,
              Send (gameroom p) (last (history g) @ ''\<newline>\<newline>**How do you respond?**''),
              GetMessage m i]"
  have "poll_players e m i (p # ps) rs g
          = poll_players e m (Suc i) ps (rs @ [(name p, r)]) (g\<lparr>trace := trace g @ ?tr\<rparr>)"
    using Human r assms(2)
    by (simp add: header_def emit_def interface_send_message_def last_text_def)
  moreover have "steps_of ?tr = [Polled m i]" by simp
  ultimately show ?thesis by blast
next
  case AI
  with assms(1) obtain r where r: "respond e m i = Inr r"
    by (cases "respond e m i") (auto simp add: poll_ok_def)
  let ?tr = "[Header (''### '' @ name p) 2, Respond m i]"
  have "poll_players e m i (p # ps) rs g
          = poll_players e m (Suc i) ps (rs @ [(name p, r)]) (g\<lparr>trace := trace g @ ?tr\<rparr>)"
    using AI r by (simp add: header_def emit_def)
  moreover have "steps_of ?tr = [Polled m i]" by simp
  ultimately show ?thesis by blast
qed

lemma poll_players_ok:
  assumes "\<forall>d<length ps. poll_ok e (ps ! d) m (i + d)" and "history g \<noteq> []"
  shows "\<exists>rs' tr. poll_players e m i ps rs g = (Inr rs', g\<lparr>trace := trace g @ tr\<rparr>)
           \<and> steps_of tr = map (Polled m) [i..<i + length ps]"
  using assms
proof (induction ps arbitrary: i rs g)
  case Nil
  have "poll_players e m i [] rs g = (Inr rs, g\<lparr>trace := trace g @ []\<rparr>)" by simp
  moreover have "steps_of [] = map (Polled m) [i..<i + length ([] :: Player list)]" by simp
  ultimately show ?case by blast
next
  case (Cons p ps)
  from Cons.prems(1) have here: "poll_ok e p m i" by force
  from Cons.prems(1) have rest: "\<forall>d<length ps. poll_ok e (ps ! d) m (Suc i + d)" by force
  from poll_players_step [OF here Cons.prems(2), of ps rs] obtain r tr where
    step: "poll_players e m i (p # ps) rs g
            = poll_players e m (Suc i) ps (rs @ [(name p, r)]) (g\<lparr>trace := trace g @ tr\<rparr>)"
      and tr: "steps_of tr = [Polled m i]"
    by blast
  let ?g = "g\<lparr>trace := trace g @ tr\<rparr>"
  have h: "history ?g \<noteq> []" using Cons.prems(2) by simp
  from Cons.IH [OF rest h, of "rs @ [(name p, r)]"] obtain rs' tr' where
    ih: "poll_players e m (Suc i) ps (rs @ [(name p, r)]) ?g
           = (Inr rs', ?g\<lparr>trace := trace ?g @ tr'\<rparr>)"
      "steps_of tr' = map (Polled m) [Suc i..<Suc i + length ps]"
    by blast
  have "poll_players e m i (p # ps) rs g = (Inr rs', g\<lparr>trace := trace g @ (tr @ tr')\<rparr>)"
    unfolding step ih(1) by simp
  moreover have "steps_of (tr @ tr') = map (Polled m) [i..<i + length (p # ps)]"
    using tr ih(2) upt_head [of i "length ps"] by (simp del: upt_Suc)
  ultimately show ?case by blast
qed

lemma poll_players_stop:
  assumes "d < length ps" and "kind (ps ! d) = AI" and "respond e m (i + d) = Inl err"
    and "\<forall>d'<d. poll_ok e (ps ! d') m (i + d')" and "history g \<noteq> []"
  shows "\<exists>tr. poll_players e m i ps rs g
                = (Inl err, g\<lparr>trace := trace g @ tr @ [Respond m (i + d)]\<rparr>)
           \<and> steps_of tr = map (Polled m) [i..<i + d]"
  using assms
proof (induction ps arbitrary: i rs g d)
  case Nil
  then show ?case by simp
next
  case (Cons p ps)
  show ?case
  proof (cases d)
    case 0
    let ?tr = "[Header (''### '' @ name p) 2]"
    have "poll_players e m i (p # ps) rs g
            = (Inl err, g\<lparr>trace := trace g @ ?tr @ [Respond m (i + d)]\<rparr>)"
      using 0 Cons.prems(2,3) by (simp add: header_def emit_def)
    moreover have "steps_of ?tr = map (Polled m) [i..<i + d]"
      using 0 by simp
    ultimately show ?thesis by blast
  next
    case (Suc d')
    from Cons.prems(4) Suc have here: "poll_ok e p m i" by force
    from Cons.prems(4) Suc have rest: "\<forall>x<d'. poll_ok e (ps ! x) m (Suc i + x)" by force
    from poll_players_step [OF here Cons.prems(5), of ps rs] obtain r tr where
      step: "poll_players e m i (p # ps) rs g
              = poll_players e m (Suc i) ps (rs @ [(name p, r)]) (g\<lparr>trace := trace g @ tr\<rparr>)"
        and tr: "steps_of tr = [Polled m i]"
      by blast
    let ?g = "g\<lparr>trace := trace g @ tr\<rparr>"
    have h: "history ?g \<noteq> []" using Cons.prems(5) by simp
    have d': "d' < length ps" "kind (ps ! d') = AI" "respond e m (Suc i + d') = Inl err"
      using Cons.prems(1,2,3) Suc by simp_all
    from Cons.IH [OF d' rest h, of "rs @ [(name p, r)]"] obtain tr' where
      ih: "poll_players e m (Suc i) ps (rs @ [(name p, r)]) ?g
            = (Inl err, ?g\<lparr>trace := trace ?g @ tr' @ [Respond m (Suc i + d')]\<rparr>)"
        "steps_of tr' = map (Polled m) [Suc i..<Suc i + d']"
      by blast
    have "poll_players e m i (p # ps) rs g
            = (Inl err, g\<lparr>trace := trace g @ (tr @ tr') @ [Respond m (i + d)]\<rparr>)"
      unfolding step ih(1) using Suc by simp
    moreover have "steps_of (tr @ tr') = map (Polled m) [i..<i + d]"
      using tr ih(2) Suc upt_head [of i d'] by (simp del: upt_Suc)
    ultimately show ?thesis by blast
  qed
qed

lemma take_move_ok:
  assumes "move_ok e (players g) m" and "history g \<noteq> []"
  shows "\<exists>out tr. take_move e m g
                    = (Inr (), g\<lparr>history := history g @ [out], trace := trace g @ tr\<rparr>)
           \<and> steps_of tr = whole_move (length (players g)) m"
proof -
  let ?hd = "Header (''Move '' @ digits (m + 1)) 1"
  let ?g1 = "g\<lparr>trace := trace g @ [?hd]\<rparr>"
  from assms(1) have ok: "\<forall>d<length (players ?g1). poll_ok e (players ?g1 ! d) m (0 + d)"
    by (simp add: move_ok_def)
  have h1: "history ?g1 \<noteq> []" using assms(2) by simp
  from poll_players_ok [OF ok h1, of "[]"] obtain rs' tr where
    polls: "poll_players e m 0 (players ?g1) [] ?g1 = (Inr rs', ?g1\<lparr>trace := trace ?g1 @ tr\<rparr>)"
      "steps_of tr = map (Polled m) [0..<0 + length (players ?g1)]"
    by blast
  from assms(1) obtain out where out: "adjudicate e m = Inr out"
    by (cases "adjudicate e m") (auto simp add: move_ok_def)
  let ?tr = "?hd # tr @ [Header ''### Result'' 2, Adjudicate m, Narration out]"
  have "take_move e m g = (Inr (), g\<lparr>history := history g @ [out], trace := trace g @ ?tr\<rparr>)"
    using polls(1) out
    by (simp add: take_move_def header_def emit_def record_narration_def)
  moreover have "steps_of ?tr = whole_move (length (players g)) m"
    using polls(2) by (simp add: whole_move_def)
  ultimately show ?thesis by blast
qed

lemma take_move_stop:
  assumes "stops_at e (players g) k j msg" and "history g \<noteq> []"
  shows "\<exists>tr. take_move e k g
                = (Inl (CostLimitExceeded msg),
                   g\<lparr>trace := trace g @ tr @ [failing_call (players g) k j]\<rparr>)
           \<and> steps_of tr = Started (''Move '' @ digits (k + 1)) # map (Polled k) [0..<j]"
proof -
  let ?hd = "Header (''Move '' @ digits (k + 1)) 1"
  let ?g1 = "g\<lparr>trace := trace g @ [?hd]\<rparr>"
  have h1: "history ?g1 \<noteq> []" using assms(2) by simp
  show ?thesis
  proof (cases "j < length (players g)")
    case True
    with assms(1) have f: "j < length (players ?g1)" "kind (players ?g1 ! j) = AI"
        "respond e k (0 + j) = Inl (CostLimitExceeded msg)"
        "\<forall>d'<j. poll_ok e (players ?g1 ! d') k (0 + d')"
      by (simp_all add: stops_at_def)
    from poll_players_stop [OF f h1, of "[]"] obtain tr where
      polls: "poll_players e k 0 (players ?g1) [] ?g1
               = (Inl (CostLimitExceeded msg), ?g1\<lparr>trace := trace ?g1 @ tr @ [Respond k (0 + j)]\<rparr>)"
        "steps_of tr = map (Polled k) [0..<0 + j]"
      by blast
    have "take_move e k g
            = (Inl (CostLimitExceeded msg),
               g\<lparr>trace := trace g @ (?hd # tr) @ [failing_call (players g) k j]\<rparr>)"
      using polls(1) True
      by (simp add: take_move_def header_def emit_def failing_call_def)
    moreover have "steps_of (?hd # tr)
                     = Started (''Move '' @ digits (k + 1)) # map (Polled k) [0..<j]"
      using polls(2) by simp
    ultimately show ?thesis by blast
  next
    case False
    with assms(1) have j: "j = length (players g)"
        and adj: "adjudicate e k = Inl (CostLimitExceeded msg)"
        and ok: "\<forall>d<length (players ?g1). poll_ok e (players ?g1 ! d) k (0 + d)"
      by (simp_all add: stops_at_def)
    from poll_players_ok [OF ok h1, of "[]"] obtain rs' tr where
      polls: "poll_players e k 0 (players ?g1) [] ?g1 = (Inr rs', ?g1\<lparr>trace := trace ?g1 @ tr\<rparr>)"
        "steps_of tr = map (Polled k) [0..<0 + length (players ?g1)]"
      by blast
    let ?tr = "?hd # tr @ [Header ''### Result'' 2]"
    have "take_move e k g
            = (Inl (CostLimitExceeded msg),
               g\<lparr>trace := trace g @ ?tr @ [failing_call (players g) k j]\<rparr>)"
      using polls(1) adj j
      by (simp add: take_move_def header_def emit_def failing_call_def)
    moreover have "steps_of ?tr = Started (''Move '' @ digits (k + 1)) # map (Polled k) [0..<j]"
      using polls(2) j by simp
    ultimately show ?thesis by blast
  qed
qed

lemma run_moves_stop:
  assumes "\<forall>m'<k. move_ok e (players g) (m + m')" and "stops_at e (players g) (m + k) j msg"
    and "k < n" and "history g \<noteq> []"
  shows "\<exists>outs tr. run_moves e n m c g
                     = (Some (CostLimitExceeded msg), c + k,
                        g\<lparr>history := history g @ outs,
                          trace := trace g @ tr @ [failing_call (players g) (m + k) j]\<rparr>)
           \<and> length outs = k
           \<and> steps_of tr = concat (map (whole_move (length (players g))) [m..<m + k])
                            @ Started (''Move '' @ digits (m + k + 1))
                              # map (Polled (m + k)) [0..<j]"
  using assms
proof (induction k arbitrary: n m c g)
  case 0
  then obtain n' where n: "n = Suc n'" by (cases n) auto
  from 0 have "stops_at e (players g) m j msg" by simp
  from take_move_stop [OF this "0.prems"(4)] obtain tr where
    tm: "take_move e m g = (Inl (CostLimitExceeded msg),
                            g\<lparr>trace := trace g @ tr @ [failing_call (players g) m j]\<rparr>)"
      "steps_of tr = Started (''Move '' @ digits (m + 1)) # map (Polled m) [0..<j]"
    by blast
  have "run_moves e n m c g
          = (Some (CostLimitExceeded msg), c + 0,
             g\<lparr>history := history g @ [],
               trace := trace g @ tr @ [failing_call (players g) (m + 0) j]\<rparr>)"
    using tm(1) n by simp
  moreover have "steps_of tr
      = concat (map (whole_move (length (players g))) [m..<m + 0])
        @ Started (''Move '' @ digits (m + 0 + 1)) # map (Polled (m + 0)) [0..<j]"
    using tm(2) by simp
  ultimately show ?case by (metis list.size(3))
next
  case (Suc k)
  then obtain n' where n: "n = Suc n'" by (cases n) auto
  from Suc.prems(1) have "move_ok e (players g) m" by force
  from take_move_ok [OF this Suc.prems(4)] obtain out tr where
    tm: "take_move e m g = (Inr (), g\<lparr>history := history g @ [out], trace := trace g @ tr\<rparr>)"
      "steps_of tr = whole_move (length (players g)) m"
    by blast
  let ?g = "g\<lparr>history := history g @ [out], trace := trace g @ tr\<rparr>"
  have ok: "\<forall>m'<k. move_ok e (players ?g) (Suc m + m')"
    using Suc.prems(1) by force
  have stop: "stops_at e (players ?g) (Suc m + k) j msg"
    using Suc.prems(2) by simp
  have lt: "k < n'" using Suc.prems(3) n by simp
  have h: "history ?g \<noteq> []" by simp
  from Suc.IH [OF ok stop lt h, of "Suc c"] obtain outs tr' where
    ih: "run_moves e n' (Suc m) (Suc c) ?g
           = (Some (CostLimitExceeded msg), Suc c + k,
              ?g\<lparr>history := history ?g @ outs,
                 trace := trace ?g @ tr' @ [failing_call (players ?g) (Suc m + k) j]\<rparr>)"
      "length outs = k"
      "steps_of tr' = concat (map (whole_move (length (players ?g))) [Suc m..<Suc m + k])
                      @ Started (''Move '' @ digits (Suc m + k + 1))
                        # map (Polled (Suc m + k)) [0..<j]"
    by blast
  have "run_moves e n m c g
          = (Some (CostLimitExceeded msg), c + Suc k,
             g\<lparr>history := history g @ (out # outs),
               trace := trace g @ (tr @ tr') @ [failing_call (players g) (m + Suc k) j]\<rparr>)"
    using tm(1) ih(1) n by simp
  moreover have "length (out # outs) = Suc k" using ih(2) by simp
  moreover have "steps_of (tr @ tr')
      = concat (map (whole_move (length (players g))) [m..<m + Suc k])
        @ Started (''Move '' @ digits (m + Suc k + 1)) # map (Polled (m + Suc k)) [0..<j]"
    using tm(2) ih(3) upt_head [of m k] by (simp del: upt_Suc)
  ultimately show ?case by blast
qed

lemma greet_trace:
  "\<exists>tr. greet ps g = g\<lparr>trace := trace g @ tr\<rparr> \<and> steps_of tr = []"
proof (induction ps arbitrary: g)
  case Nil
  have "greet [] g = g\<lparr>trace := trace g @ []\<rparr>" by simp
  then show ?case by (metis steps_of_simps(1))
next
  case (Cons p ps)
  let ?tr = "if kind p = Human then [Send (gameroom p) (''You are '' @ name p @ ''.'')] else []"
  let ?g = "g\<lparr>trace := trace g @ ?tr\<rparr>"
  have step: "greet (p # ps) g = greet ps ?g"
    by (simp add: interface_send_message_def emit_def)
  from Cons [of ?g] obtain tr where
    ih: "greet ps ?g = ?g\<lparr>trace := trace ?g @ tr\<rparr>" "steps_of tr = []"
    by blast
  have "greet (p # ps) g = g\<lparr>trace := trace g @ (?tr @ tr)\<rparr>"
    unfolding step ih(1) by simp
  moreover have "steps_of (?tr @ tr) = []"
    using ih(2) by simp
  ultimately show ?case by blast
qed

lemma notify_stopped_trace:
  "notify_stopped msg ps g
     = g\<lparr>trace := trace g @ map (\<lambda>p. Send (gameroom p)
              (''**Game stopped: spending limit reached.**\<newline>\<newline>'' @ msg)) (humans ps)\<rparr>"
  by (induction ps arbitrary: g) (simp_all add: humans_def interface_send_message_def emit_def)

lemma game_over_trace:
  "history g \<noteq> [] \<Longrightarrow>
   game_over ps g
     = (Inr (), g\<lparr>trace := trace g @ map (\<lambda>p. Send (gameroom p)
              (last (history g) @ ''\<newline>\<newline>**Game Over**'')) (humans ps)\<rparr>)"
  by (induction ps arbitrary: g)
     (simp_all add: humans_def interface_send_message_def emit_def last_text_def)

lemma steps_of_sends: "steps_of (map (\<lambda>p. Send (room p) (content p)) ps) = []"
  by (induction ps) simp_all

text \<open>
  C3. Let the moves before move \<open>k\<close> of a game of \<open>n > k\<close> moves go through, and let
  move \<open>k\<close> raise the budget condition, in the \<open>respond\<close> of the AI player at position
  \<open>j\<close> or in the adjudication (\<open>j\<close> the number of players). Then \<open>game\<close> returns
  normally. Up to the failing call the round loop has gone through \<open>k\<close> whole moves,
  has started move \<open>k\<close> and has polled the players before position \<open>j\<close>; the failing
  call is the last step of the round loop in the whole run, so no further player is
  polled and no later move is started. After the failing call the controller does
  exactly this: it logs the warning, sends each human player one message with the
  text of the failure, sends each human player the last narration with the
  game-over mark, and reports \<open>k\<close> completed moves of \<open>n\<close>. Every advisor's active
  flag is False at the end.
\<close>

theorem budget_stop_is_graceful:
  assumes "budget_stop e (players g) k j msg" and "k < nat (moves g)"
  shows "\<exists>pre g'. game e g = (Inr (), g')
     \<and> trace g' = trace g @ pre
          @ [failing_call (players g) k j]
          @ [LogWarning (''Budget exceeded, stopping game: '' @ msg)]
          @ map (\<lambda>p. Send (gameroom p)
                   (''**Game stopped: spending limit reached.**\<newline>\<newline>'' @ msg))
              (humans (players g))
          @ map (\<lambda>p. Send (gameroom p) (last (history g') @ ''\<newline>\<newline>**Game Over**''))
              (humans (players g))
          @ [GameComplete k (moves g)]
     \<and> steps_of pre = schedule (length (players g)) k j
     \<and> steps_of (trace g') = steps_of (trace g) @ schedule (length (players g)) k j
                              @ step_of (failing_call (players g) k j)
     \<and> length (history g') = Suc k
     \<and> advisors g' = map (\<lambda>a. a\<lparr>active := False\<rparr>) (advisors g)
     \<and> list_all (\<lambda>a. \<not> active a) (advisors g')"
proof -
  let ?opening = "[Header (title g) 0, Narration (scenario g), Header (scenario g) 2]"
  let ?g4 = "g\<lparr>history := [scenario g], trace := trace g @ ?opening\<rparr>"
  obtain trg where
    g5: "greet (players ?g4) ?g4 = ?g4\<lparr>trace := trace ?g4 @ trg\<rparr>"
      and trg: "steps_of trg = []"
    using greet_trace [of "players ?g4" ?g4] by blast
  let ?g5 = "?g4\<lparr>trace := trace ?g4 @ trg\<rparr>"
  have ok: "\<forall>m'<k. move_ok e (players ?g5) (0 + m')"
    and stop: "stops_at e (players ?g5) (0 + k) j msg"
    using assms(1) by (simp_all add: budget_stop_def)
  have h5: "history ?g5 \<noteq> []" by simp
  from run_moves_stop [OF ok stop assms(2) h5, of 0] obtain outs tr where
    run: "run_moves e (nat (moves g)) 0 0 ?g5
            = (Some (CostLimitExceeded msg), 0 + k,
               ?g5\<lparr>history := history ?g5 @ outs,
                   trace := trace ?g5 @ tr @ [failing_call (players ?g5) (0 + k) j]\<rparr>)"
      and outs: "length outs = k"
      and tr: "steps_of tr = concat (map (whole_move (length (players ?g5))) [0..<0 + k])
                             @ Started (''Move '' @ digits (0 + k + 1))
                               # map (Polled (0 + k)) [0..<j]"
    by blast
  let ?pre = "?opening @ trg @ tr"
  let ?hist = "scenario g # outs"
  let ?tail = "[LogWarning (''Budget exceeded, stopping game: '' @ msg)]
                 @ map (\<lambda>p. Send (gameroom p)
                          (''**Game stopped: spending limit reached.**\<newline>\<newline>'' @ msg))
                     (humans (players g))
                 @ map (\<lambda>p. Send (gameroom p) (last ?hist @ ''\<newline>\<newline>**Game Over**''))
                     (humans (players g))
                 @ [GameComplete k (moves g)]"
  let ?g' = "g\<lparr>history := ?hist,
               trace := trace g @ ?pre @ [failing_call (players g) k j] @ ?tail,
               advisors := map (\<lambda>a. a\<lparr>active := False\<rparr>) (advisors g)\<rparr>"
  have start: "greet (players g)
                 (header (scenario g) 2
                   (record_narration (scenario g)
                     (header (title g) 0 (g\<lparr>history := []\<rparr>)))) = ?g5"
    using g5 by (simp add: header_def emit_def record_narration_def)
  have "game e g = (Inr (), ?g')"
    using run start
    by (simp add: game_def Let_def header_def emit_def record_narration_def conclusion_def
        notify_stopped_trace game_over_trace)
  moreover have pre: "steps_of ?pre = schedule (length (players g)) k j"
    using trg tr by (simp add: schedule_def)
  moreover have "steps_of ?tail = []"
    by (simp add: steps_of_sends)
  then have "steps_of (trace ?g') = steps_of (trace g) @ schedule (length (players g)) k j
                              @ step_of (failing_call (players g) k j)"
    using pre by simp
  moreover have "length (history ?g') = Suc k"
    using outs by simp
  moreover have "list_all (\<lambda>a. \<not> active a) (advisors ?g')"
    by (simp add: list_all_iff)
  ultimately show ?thesis
    by (intro exI [of _ ?pre] exI [of _ ?g']) simp
qed

theorem budget_stop_is_graceful_witness:
  "fst (game round3_over_cap four_round_game) = Inr ()
   \<and> steps_of (trace (snd (game round3_over_cap four_round_game)))
       = [Started ''Move 1'', Polled 0 0, Polled 0 1, Polled 0 2, Adjudicated 0,
          Started ''Move 2'', Polled 1 0, Polled 1 1, Polled 1 2, Adjudicated 1,
          Started ''Move 3'', Polled 2 0, Polled 2 1, Polled 2 2]
   \<and> last (trace (snd (game round3_over_cap four_round_game))) = GameComplete 2 4
   \<and> length (history (snd (game round3_over_cap four_round_game))) = 3
   \<and> map active (advisors (snd (game round3_over_cap four_round_game))) = [False]"
proof -
  have ps: "length (players four_round_game) = 3"
    "kind (players four_round_game ! 2) = AI"
    by (simp_all add: four_round_game_def)
  have "move_ok round3_over_cap (players four_round_game) m" if "m < 2" for m
    using that by (simp add: move_ok_def poll_ok_def round3_over_cap_def)
  moreover have "stops_at round3_over_cap (players four_round_game) 2 2
                   ''Total spend over lifetime cap''"
    using ps by (simp add: stops_at_def poll_ok_def round3_over_cap_def)
  ultimately have stop: "budget_stop round3_over_cap (players four_round_game) 2 2
                           ''Total spend over lifetime cap''"
    by (simp add: budget_stop_def)
  have lt: "2 < nat (moves four_round_game)"
    by (simp add: four_round_game_def)
  from budget_stop_is_graceful [OF stop lt] obtain pre g' where
    run: "game round3_over_cap four_round_game = (Inr (), g')"
    and tr: "trace g' = trace four_round_game @ pre
          @ [failing_call (players four_round_game) 2 2]
          @ [LogWarning (''Budget exceeded, stopping game: '' @ ''Total spend over lifetime cap'')]
          @ map (\<lambda>p. Send (gameroom p)
                   (''**Game stopped: spending limit reached.**\<newline>\<newline>''
                    @ ''Total spend over lifetime cap''))
              (humans (players four_round_game))
          @ map (\<lambda>p. Send (gameroom p) (last (history g') @ ''\<newline>\<newline>**Game Over**''))
              (humans (players four_round_game))
          @ [GameComplete 2 (moves four_round_game)]"
    and steps: "steps_of (trace g') = steps_of (trace four_round_game)
                  @ schedule (length (players four_round_game)) 2 2
                  @ step_of (failing_call (players four_round_game) 2 2)"
    and hist: "length (history g') = Suc 2"
    and adv: "advisors g' = map (\<lambda>a. a\<lparr>active := False\<rparr>) (advisors four_round_game)"
    by blast
  have fin: "last (trace g') = GameComplete 2 (moves four_round_game)"
    unfolding tr by simp
  have sched: "schedule (length (players four_round_game)) 2 2
      = [Started ''Move 1'', Polled 0 0, Polled 0 1, Polled 0 2, Adjudicated 0,
         Started ''Move 2'', Polled 1 0, Polled 1 1, Polled 1 2, Adjudicated 1,
         Started ''Move 3'', Polled 2 0, Polled 2 1]"
    unfolding ps(1)
    by (simp add: schedule_def whole_move_def digits.simps upt_rec numeral_2_eq_2 numeral_3_eq_3)
  have failing: "failing_call (players four_round_game) 2 2 = Respond 2 2"
    using ps(1) by (simp add: failing_call_def)
  have given: "trace four_round_game = []" "moves four_round_game = 4"
    by (simp_all add: four_round_game_def)
  have inactive: "map active (advisors g') = [False]"
    unfolding adv by (simp add: four_round_game_def)
  show ?thesis
    unfolding run using fin steps hist inactive
    by (simp add: sched failing given)
qed

section \<open>Properties of the start of a game\<close>

lemma make_players_human:
  "list_ex (\<lambda>p. kind p = Human) (make_players ioid ps) = list_ex (\<lambda>(n, k). k = ''human'') ps"
  by (induction ioid ps rule: make_players.induct) auto

text \<open>
  C9, as the code has it. What \<open>__call__\<close> starts is decided by the \<open>ai_only\<close> flag of
  the session: with the flag set it awaits the round loop alone and starts no task;
  without it, one chat-session task per advisor and the task of the round loop are
  created in one task group. The flag is the \<open>ai_only\<close> key of the configuration,
  False when the key is missing. For a configuration made by \<open>merge_config\<close> the flag
  is set exactly when no player is human, so that there a session with a human
  player gets the task group and a session without one gets the round loop alone.
\<close>

theorem call_follows_flag:
  "(ai_only g \<longrightarrow> call g = AwaitGame)
   \<and> (\<not> ai_only g \<longrightarrow>
        call g = TaskGroup (map (\<lambda>a. ChatSession (name a) (chatroom a)) (advisors g) @ [GameTask]))
   \<and> ai_only (UserDefinedGame_init (Configuration_init fc) ioid)
       = (case fc_ai_only fc of Some b \<Rightarrow> b | None \<Rightarrow> False)
   \<and> (let mg = UserDefinedGame_init
                  (Configuration_init (merge_config template roles chosen)) ioid
      in (list_ex (\<lambda>p. kind p = Human) (players mg) \<longrightarrow>
            call mg = TaskGroup (map (\<lambda>a. ChatSession (name a) (chatroom a)) (advisors mg)
                                 @ [GameTask]))
         \<and> (\<not> list_ex (\<lambda>p. kind p = Human) (players mg) \<longrightarrow> call mg = AwaitGame))"
  by (simp add: call_def UserDefinedGame_init_def Configuration_init_def merge_config_def
      make_players_human Let_def)

theorem call_follows_flag_witness:
  "\<not> ai_only merged_game
   \<and> map kind (players merged_game) = [Human, AI]
   \<and> call merged_game = TaskGroup [ChatSession ''Sage'' ''chat7'', GameTask]"
  using call_follows_flag [of merged_game all_ai_file "''7''" all_ai_file
      "[''Red'' \<mapsto> ''human'']" "[''Sage'']"]
  by (simp add: merged_game_def all_ai_file_def UserDefinedGame_init_def Configuration_init_def
      merge_config_def)

text \<open>
  C9, as the claim has it, fails for a game read from a file: with two AI players, no
  human and no \<open>ai_only\<close> key, the chat session of the advisor is started.
\<close>

theorem all_ai_session_starts_chats:
  "map kind (players all_ai_game) = [AI, AI]
   \<and> call all_ai_game = TaskGroup [ChatSession ''Sage'' ''chat7'', GameTask]"
  by (simp add: all_ai_game_def all_ai_file_def UserDefinedGame_init_def Configuration_init_def
      call_def)

end
